theory Spec2Isabelle
  imports Main
begin

section \<open>Data model\<close>

text \<open>
  The page identifier of the navigation switch, \<^verbatim>\<open>type Page = 'home' | 'data'\<close>.
\<close>

datatype Page = Home | Data

text \<open>
  The payload of the remote endpoint, \<^verbatim>\<open>interface Post { id; title; body }\<close>.
  The field \<^verbatim>\<open>id\<close> is called \<open>post_id\<close> here, \<open>id\<close> being the identity function of HOL.
\<close>

record Post =
  post_id :: int
  title :: string
  body :: string

text \<open>A JavaScript \<^verbatim>\<open>Error\<close> object, of which the program reads the message only.\<close>

datatype Error = Error (message: string)

section \<open>Numbers\<close>

text \<open>
  The decimal numeral of a natural number, as a template literal or a JSX text node prints
  an integral number below \<open>10\<^sup>2\<^sup>1\<close>.
\<close>

fun decimal :: "nat \<Rightarrow> string" where
  "decimal n =
     (if n < 10 then [''0123456789'' ! n]
      else decimal (n div 10) @ [''0123456789'' ! (n mod 10)])"

declare decimal.simps [simp del]

text \<open>
  \<^verbatim>\<open>prevCount + 1\<close> on a JavaScript number. Numbers are IEEE doubles: integers are exact
  up to \<open>2\<^sup>5\<^sup>3\<close>, and \<open>2\<^sup>5\<^sup>3 + 1\<close> rounds back to \<open>2\<^sup>5\<^sup>3\<close> (ties to even). A counter
  that starts at 0 and is only ever incremented never holds a value above \<open>2\<^sup>5\<^sup>3\<close>,
  so the second branch is the only one it meets from there on.
\<close>

definition MAX_EXACT :: nat where
  "MAX_EXACT = 2 ^ 53"

definition number_add1 :: "nat \<Rightarrow> nat" where
  "number_add1 n = (if n < MAX_EXACT then n + 1 else n)"

section \<open>Button\<close>

text \<open>
  \<^verbatim>\<open>variant: 'primary' | 'secondary'\<close>, and the props of the button. The click handler is
  an opaque value of the caller; \<^verbatim>\<open>onClick\<close> and \<^verbatim>\<open>disabled\<close> are optional props.
\<close>

datatype Variant = Primary | Secondary

record 'h ButtonProps =
  variant :: Variant
  label :: string
  onClick :: "'h option"
  disabled :: "bool option"

record 'h ButtonElement =
  button_className :: string
  button_onClick :: "'h option"
  button_disabled :: "bool option"
  button_text :: string

definition baseClasses :: string where
  "baseClasses = ''px-4 py-2 rounded font-semibold text-white transition-colors duration-200''"

definition variantClasses :: "Variant \<Rightarrow> string" where
  "variantClasses v =
     (if v = Primary then ''bg-blue-500 hover:bg-blue-600'' else ''bg-gray-500 hover:bg-gray-600'')"

definition Button :: "'h ButtonProps \<Rightarrow> 'h ButtonElement" where
  "Button props =
     \<lparr> button_className = baseClasses @ '' '' @ variantClasses (variant props),
       button_onClick = onClick props,
       button_disabled = disabled props,
       button_text = label props \<rparr>"

section \<open>Card\<close>

text \<open>
  The props of the card (\<^verbatim>\<open>className\<close> is optional) and what it renders: the class
  attribute of the outer \<^verbatim>\<open>div\<close>, the heading, the paragraph and the counter line.
\<close>

record CardProps =
  card_title :: string
  content :: string
  className :: "string option"

record CardElement =
  card_class :: string
  card_heading :: string
  card_paragraph :: string
  card_counter :: string

text \<open>
  JavaScript's \<^verbatim>\<open>x || d\<close> on a string that may be undefined: the empty string and
  undefined are falsy.
\<close>

definition or_else :: "string option \<Rightarrow> string \<Rightarrow> string" where
  "or_else x d = (case x of None \<Rightarrow> d | Some s \<Rightarrow> if s = [] then d else s)"

text \<open>The updater passed to \<^verbatim>\<open>setClickCount\<close> by \<^verbatim>\<open>handleCardClick\<close>.\<close>

definition handleCardClick :: "nat \<Rightarrow> nat" where
  "handleCardClick prevCount = number_add1 prevCount"

text \<open>
  The card is a function of its props and of its own state \<open>clickCount\<close>. The class
  attribute is the template literal as it is written, with its line breaks and its
  indentation.
\<close>

definition CardComponent :: "CardProps \<Rightarrow> nat \<Rightarrow> CardElement" where
  "CardComponent props clickCount =
     \<lparr> card_class =
         ''\<newline>        bg-white p-6 rounded-xl shadow-lg\<newline>        transform transition-transform duration-200 hover:scale-105\<newline>        cursor-pointer\<newline>        ''
           @ or_else (className props) '''' @ ''\<newline>      '',
       card_heading = card_title props,
       card_paragraph = content props,
       card_counter =
         ''Clicked: '' @ decimal clickCount @ '' time'' @ (if clickCount \<noteq> 1 then ''s'' else '''') \<rparr>"

section \<open>DataFetcher\<close>

text \<open>
  What the network call can deliver. \<^verbatim>\<open>fetch\<close> either rejects (transport error) or
  resolves with a response that carries a status; \<^verbatim>\<open>response.json()\<close> either rejects
  (the body is not JSON) or resolves with the parsed value, which the component stores as
  \<^verbatim>\<open>Post | null\<close>. \<^verbatim>\<open>response.ok\<close> is true for the statuses 200 to 299.
\<close>

datatype body_result = Malformed Error | Json "Post option"

datatype outcome = Rejected Error | Response nat body_result

definition response_ok :: "nat \<Rightarrow> bool" where
  "response_ok status = (200 \<le> status \<and> status \<le> 299)"

text \<open>
  One instance of \<^verbatim>\<open>DataFetcherComponent\<close>: the three \<^verbatim>\<open>useState\<close> cells, the click
  count of the card it renders once loaded, and three bookkeeping fields that the source
  has implicitly: whether the instance is mounted, whether its request is still in
  flight, and how many times it has called \<^verbatim>\<open>fetch\<close>.
\<close>

record Instance =
  data :: "Post option"
  loading :: bool
  error :: "Error option"
  card_clicks :: nat
  mounted :: bool
  inflight :: bool
  fetchCount :: nat

text \<open>The three setters, as calls, and what an update writes.\<close>

datatype setter = SetData "Post option" | SetLoading bool | SetError "Error option"

fun apply_setter :: "setter \<Rightarrow> Instance \<Rightarrow> Instance" where
  "apply_setter (SetData d) f = f\<lparr>data := d\<rparr>"
| "apply_setter (SetLoading b) f = f\<lparr>loading := b\<rparr>"
| "apply_setter (SetError e) f = f\<lparr>error := e\<rparr>"

text \<open>
  A call of a setter, as React's \<^verbatim>\<open>useState\<close> handles it: the update is applied to
  the cells of a mounted instance and dropped for an instance that has been unmounted.
\<close>

definition dispatch :: "setter \<Rightarrow> Instance \<Rightarrow> Instance" where
  "dispatch c f = (if mounted f then apply_setter c f else f)"

text \<open>
  The initial values of the cells, \<^verbatim>\<open>useState(null)\<close>, \<^verbatim>\<open>useState(true)\<close>,
  \<^verbatim>\<open>useState(null)\<close>, for an instance that has just been created.
\<close>

definition useState_init :: Instance where
  "useState_init =
     \<lparr> data = None, loading = True, error = None, card_clicks = 0,
       mounted = True, inflight = False, fetchCount = 0 \<rparr>"

text \<open>
  \<^verbatim>\<open>fetchData\<close> up to its first \<^verbatim>\<open>await\<close>: two setter calls, then the request is sent.
\<close>

definition fetchData_begin :: "setter list" where
  "fetchData_begin = [SetLoading True, SetError None]"

definition fetchData_start :: "Instance \<Rightarrow> Instance" where
  "fetchData_start f =
     (fold dispatch fetchData_begin f)\<lparr>inflight := True, fetchCount := fetchCount f + 1\<rparr>"

text \<open>
  The rest of the \<^verbatim>\<open>try\<close> block, once the network has answered: \<open>Inl\<close> is what is
  thrown, \<open>Inr\<close> the parsed value that reaches \<^verbatim>\<open>setData\<close>.
\<close>

definition fetchData_try :: "outcome \<Rightarrow> Error + Post option" where
  "fetchData_try out =
     (case out of
        Rejected e \<Rightarrow> Inl e
      | Response status b \<Rightarrow>
          if \<not> response_ok status then Inl (Error (''HTTP error! status: '' @ decimal status))
          else (case b of Malformed e \<Rightarrow> Inl e | Json json \<Rightarrow> Inr json))"

text \<open>
  The setter calls of the continuation: \<^verbatim>\<open>setData(json)\<close> or, in the \<^verbatim>\<open>catch\<close>,
  \<^verbatim>\<open>setError(e)\<close>; then \<^verbatim>\<open>setLoading(false)\<close> in the \<^verbatim>\<open>finally\<close>.
\<close>

definition fetchData_resume :: "outcome \<Rightarrow> setter list" where
  "fetchData_resume out =
     (case fetchData_try out of Inr json \<Rightarrow> [SetData json] | Inl e \<Rightarrow> [SetError (Some e)])
     @ [SetLoading False]"

text \<open>
  The request of an instance settles. The continuation runs to completion in one turn of
  the event loop, so its calls take effect together. The source tests nothing before it
  calls the setters: the effect returns no cleanup and there is no liveness flag, so the
  calls are made whether or not the instance is still mounted, and it is \<open>dispatch\<close>
  that drops them for an unmounted instance. A request settles once.
\<close>

definition fetchData_settle :: "outcome \<Rightarrow> Instance \<Rightarrow> Instance" where
  "fetchData_settle out f =
     (if inflight f then (fold dispatch (fetchData_resume out) f)\<lparr>inflight := False\<rparr>
      else f)"

text \<open>Mounting runs the effect once; unmounting only marks the instance.\<close>

definition mount :: Instance where
  "mount = fetchData_start useState_init"

definition unmount :: "Instance \<Rightarrow> Instance" where
  "unmount f = f\<lparr>mounted := False\<rparr>"

text \<open>What the component returns, in the order of its tests.\<close>

datatype Rendered =
    LoadingView string
  | ErrorView string string string
  | CardView CardElement

definition DataFetcherComponent :: "Instance \<Rightarrow> Rendered" where
  "DataFetcherComponent f =
     (if loading f then LoadingView ''Loading...''
      else case error f of
        Some e \<Rightarrow>
          ErrorView ''Error!'' ''Could not fetch data. Please try again later.''
            (''Error message: '' @ message e)
      | None \<Rightarrow>
          CardView (CardComponent
            \<lparr> card_title = or_else (map_option title (data f)) ''No Title'',
              content = or_else (map_option body (data f)) ''No content found.'',
              className = Some ''max-w-xl mx-auto'' \<rparr>
            (card_clicks f)))"

text \<open>
  The state of the view as a tagged value, read off the cells by the same tests.
\<close>

datatype FetchState = Loading | Failed Error | Loaded "Post option"

definition fetchState :: "Instance \<Rightarrow> FetchState" where
  "fetchState f =
     (if loading f then Loading
      else case error f of Some e \<Rightarrow> Failed e | None \<Rightarrow> Loaded (data f))"

text \<open>The three variants as conditions on the cells.\<close>

definition is_Loading :: "Instance \<Rightarrow> bool" where
  "is_Loading f = (loading f \<and> error f = None \<and> data f = None)"

definition is_Failed :: "Instance \<Rightarrow> bool" where
  "is_Failed f = (\<not> loading f \<and> error f \<noteq> None \<and> data f = None)"

definition is_Loaded :: "Instance \<Rightarrow> bool" where
  "is_Loaded f = (\<not> loading f \<and> error f = None)"

text \<open>The state of the view: the three cells.\<close>

definition view_state :: "Instance \<Rightarrow> Post option \<times> bool \<times> Error option" where
  "view_state f = (data f, loading f, error f)"

text \<open>
  A click on the card of the loaded view; there is no such card while the component
  shows the loading or the error text, or when it is not mounted.
\<close>

definition click_loaded_card :: "Instance \<Rightarrow> Instance" where
  "click_loaded_card f =
     (if mounted f \<and> \<not> loading f \<and> error f = None
      then f\<lparr>card_clicks := handleCardClick (card_clicks f)\<rparr> else f)"

section \<open>App\<close>

text \<open>
  The state of the application: the selected page, the click counts of the cards of the
  home page (none while the home page is not rendered), and every instance of the data
  fetcher created so far, oldest first. The instance on screen, if any, is the last one.
\<close>

record App =
  currentPage :: Page
  cards :: "nat list"
  fetchers :: "Instance list"

definition home_cards :: "CardProps list" where
  "home_cards =
     [ \<lparr> card_title = ''Introduction to Components'',
         content = ''This card is a reusable component. It takes a title and content as props and has its own internal state.'',
         className = None \<rparr>,
       \<lparr> card_title = ''TypeScript in Action'',
         content = ''Props for this component are strictly typed using a TypeScript interface, ensuring we pass the correct data types.'',
         className = None \<rparr>,
       \<lparr> card_title = ''Local State Example'',
         content = ''Clicking this card updates its local state (the click count) without affecting the other cards.'',
         className = None \<rparr> ]"

definition App_init :: App where
  "App_init = \<lparr> currentPage = Home, cards = map (\<lambda>_. 0) home_cards, fetchers = [] \<rparr>"

text \<open>
  What can happen: a navigation button is clicked, a home card is clicked, the card of the
  loaded view is clicked, or the request of the \<open>k\<close>-th instance settles.
\<close>

datatype event =
    Select Page
  | ClickCard nat
  | ClickLoadedCard
  | Settle nat outcome

text \<open>
  \<^verbatim>\<open>setCurrentPage\<close> with the page already selected changes nothing: the same element
  stays at the same place and keeps its state. A change of page unmounts what the old page
  showed and mounts the content of the new one with fresh state.
\<close>

fun step :: "event \<Rightarrow> App \<Rightarrow> App" where
  "step (Select p) s =
     (if currentPage s = p then s
      else case p of
        Home \<Rightarrow>
          s\<lparr>currentPage := Home, cards := map (\<lambda>_. 0) home_cards,
            fetchers := map unmount (fetchers s)\<rparr>
      | Data \<Rightarrow>
          s\<lparr>currentPage := Data, cards := [], fetchers := fetchers s @ [mount]\<rparr>)"
| "step (ClickCard i) s =
     (if i < length (cards s) then s\<lparr>cards := (cards s)[i := handleCardClick (cards s ! i)]\<rparr>
      else s)"
| "step ClickLoadedCard s = s\<lparr>fetchers := map click_loaded_card (fetchers s)\<rparr>"
| "step (Settle k out) s =
     (if k < length (fetchers s)
      then s\<lparr>fetchers := (fetchers s)[k := fetchData_settle out (fetchers s ! k)]\<rparr>
      else s)"

fun run :: "event list \<Rightarrow> App \<Rightarrow> App" where
  "run [] s = s"
| "run (e # es) s = run es (step e s)"

text \<open>The states a run passes through, the first one included.\<close>

fun trail :: "event list \<Rightarrow> App \<Rightarrow> App list" where
  "trail [] s = [s]"
| "trail (e # es) s = s # trail es (step e s)"

text \<open>The view state of the \<open>k\<close>-th instance along a run, and the number of its changes.\<close>

definition history :: "nat \<Rightarrow> event list \<Rightarrow> App \<Rightarrow> FetchState list" where
  "history k es s = map (\<lambda>s'. fetchState (fetchers s' ! k)) (trail es s)"

fun changes :: "'a list \<Rightarrow> nat" where
  "changes (x # y # xs) = (if x = y then 0 else 1) + changes (y # xs)"
| "changes _ = 0"

text \<open>What the application renders: the classes of the two navigation buttons and the content.\<close>

datatype Content = HomeGrid "CardElement list" | DataPanel Rendered

record AppView =
  nav_home_class :: string
  nav_data_class :: string
  page_content :: "Content option"

definition nav_class :: "bool \<Rightarrow> string" where
  "nav_class active =
     ''px-4 py-2 rounded-lg font-medium transition-colors ''
       @ (if active then ''bg-blue-600 text-white shadow-lg''
          else ''bg-gray-200 text-gray-800 hover:bg-gray-300'')"

definition App_render :: "App \<Rightarrow> AppView" where
  "App_render s =
     \<lparr> nav_home_class = nav_class (currentPage s = Home),
       nav_data_class = nav_class (currentPage s = Data),
       page_content =
         (case currentPage s of
            Home \<Rightarrow> Some (HomeGrid (map (\<lambda>(props, n). CardComponent props n) (zip home_cards (cards s))))
          | Data \<Rightarrow>
              (case rev (fetchers s) of
                 f # _ \<Rightarrow> Some (DataPanel (DataFetcherComponent f))
               | [] \<Rightarrow> None)) \<rparr>"

section \<open>Invariants\<close>

text \<open>
  While its request is in flight an instance is in the loading state with nothing stored.
  At any time it is in the loading state with nothing stored, or holds an error and no
  data, or is not loading and holds no error.
\<close>

definition inst_inv :: "Instance \<Rightarrow> bool" where
  "inst_inv f =
     ((inflight f \<longrightarrow> is_Loading f) \<and> (is_Loading f \<or> is_Failed f \<or> is_Loaded f))"

definition app_inv :: "App \<Rightarrow> bool" where
  "app_inv s = (\<forall>f \<in> set (fetchers s). inst_inv f)"

text \<open>While the home page is selected no instance of the data fetcher is mounted.\<close>

definition home_inv :: "App \<Rightarrow> bool" where
  "home_inv s = (currentPage s = Home \<longrightarrow> (\<forall>f \<in> set (fetchers s). \<not> mounted f))"

section \<open>Basic facts\<close>

lemma mount_simps:
  "data mount = None" "loading mount" "error mount = None" "card_clicks mount = 0"
  "mounted mount" "inflight mount" "fetchCount mount = 1"
  by (simp_all add: mount_def fetchData_start_def fetchData_begin_def dispatch_def
      useState_init_def)

lemma render_mount: "DataFetcherComponent mount = LoadingView ''Loading...''"
  by (simp add: DataFetcherComponent_def mount_simps)

lemma unmount_simps:
  "inflight (unmount f) = inflight f" "loading (unmount f) = loading f"
  "fetchState (unmount f) = fetchState f"
  by (simp_all add: unmount_def fetchState_def split: option.splits)

lemma click_loaded_card_simps:
  "inflight (click_loaded_card f) = inflight f" "loading (click_loaded_card f) = loading f"
  "fetchState (click_loaded_card f) = fetchState f"
  by (simp_all add: click_loaded_card_def fetchState_def split: option.splits)

lemma settle_idle: "\<not> inflight f \<Longrightarrow> fetchData_settle out f = f"
  by (simp add: fetchData_settle_def)

lemma settle_unmounted: "\<not> mounted f \<Longrightarrow> fetchData_settle out f = f\<lparr>inflight := False\<rparr>"
  by (cases "fetchData_try out")
    (simp_all add: fetchData_settle_def fetchData_resume_def dispatch_def)

lemma mounted_settle: "mounted (fetchData_settle out f) = mounted f"
  by (cases "fetchData_try out")
    (simp_all add: fetchData_settle_def fetchData_resume_def dispatch_def)

lemma mounted_click: "mounted (click_loaded_card f) = mounted f"
  by (simp add: click_loaded_card_def)

lemma filter_mounted_unmount: "filter mounted (map unmount fs) = []"
  by (induction fs) (simp_all add: unmount_def)

subsection \<open>An unmounted instance along a run\<close>

lemma unmounted_step:
  assumes "k < length (fetchers s)" and "\<not> mounted (fetchers s ! k)"
  shows "k < length (fetchers (step e s)) \<and> \<not> mounted (fetchers (step e s) ! k)
       \<and> view_state (fetchers (step e s) ! k) = view_state (fetchers s ! k)"
proof (cases e)
  case (Select p)
  then show ?thesis using assms
    by (cases p) (simp_all add: nth_append unmount_def view_state_def)
next
  case (ClickCard i)
  then show ?thesis using assms by simp
next
  case ClickLoadedCard
  then show ?thesis using assms by (simp add: click_loaded_card_def)
next
  case (Settle j out)
  then show ?thesis using assms
    by (cases "j = k") (simp_all add: settle_unmounted view_state_def)
qed

lemma unmounted_trail:
  "k < length (fetchers s) \<Longrightarrow> \<not> mounted (fetchers s ! k) \<Longrightarrow>
     \<forall>s' \<in> set (trail es s).
       k < length (fetchers s') \<and> \<not> mounted (fetchers s' ! k)
       \<and> view_state (fetchers s' ! k) = view_state (fetchers s ! k)"
proof (induction es arbitrary: s)
  case Nil
  then show ?case by simp
next
  case (Cons e es)
  have st: "k < length (fetchers (step e s)) \<and> \<not> mounted (fetchers (step e s) ! k)
       \<and> view_state (fetchers (step e s) ! k) = view_state (fetchers s ! k)"
    using Cons.prems by (rule unmounted_step)
  then have "\<forall>s' \<in> set (trail es (step e s)).
       k < length (fetchers s') \<and> \<not> mounted (fetchers s' ! k)
       \<and> view_state (fetchers s' ! k) = view_state (fetchers (step e s) ! k)"
    using Cons.IH [of "step e s"] by simp
  then show ?case using st Cons.prems by simp
qed

lemma render_last_update:
  assumes "k < length fs" and "DataFetcherComponent g = DataFetcherComponent (fs ! k)"
  shows "(case rev (fs[k := g]) of [] \<Rightarrow> None | f # _ \<Rightarrow> Some (DataPanel (DataFetcherComponent f)))
       = (case rev fs of [] \<Rightarrow> None | f # _ \<Rightarrow> Some (DataPanel (DataFetcherComponent f)))"
proof (cases fs rule: rev_cases)
  case Nil
  then show ?thesis using assms(1) by simp
next
  case (snoc ys y)
  then show ?thesis using assms
    by (cases "k < length ys") (simp_all add: list_update_append nth_append)
qed

lemma render_late_settle:
  assumes "k < length (fetchers s)" and "\<not> mounted (fetchers s ! k)"
  shows "App_render (step (Settle k out) s) = App_render s"
proof -
  have "DataFetcherComponent (fetchData_settle out (fetchers s ! k))
      = DataFetcherComponent (fetchers s ! k)"
    using assms(2) by (simp add: settle_unmounted DataFetcherComponent_def split: option.splits)
  from render_last_update [OF assms(1) this] show ?thesis
    using assms(1) by (cases "currentPage s") (simp_all add: App_render_def)
qed

subsection \<open>The invariants hold along every run\<close>

lemma inst_inv_mount: "inst_inv mount"
  by (simp add: inst_inv_def is_Loading_def mount_simps)

lemma inst_inv_unmount: "inst_inv f \<Longrightarrow> inst_inv (unmount f)"
  by (auto simp add: inst_inv_def unmount_def is_Loading_def is_Failed_def is_Loaded_def)

lemma inst_inv_click: "inst_inv f \<Longrightarrow> inst_inv (click_loaded_card f)"
  by (auto simp add: inst_inv_def click_loaded_card_def is_Loading_def is_Failed_def is_Loaded_def)

lemma inst_inv_settle: "inst_inv f \<Longrightarrow> inst_inv (fetchData_settle out f)"
  by (cases "fetchData_try out")
    (auto simp add: inst_inv_def fetchData_settle_def fetchData_resume_def dispatch_def
      is_Loading_def is_Failed_def is_Loaded_def)

lemma app_inv_init: "app_inv App_init"
  by (simp add: app_inv_def App_init_def)

lemma app_inv_step: "app_inv s \<Longrightarrow> app_inv (step e s)"
proof (cases e)
  case (Select p)
  assume "app_inv s"
  then show ?thesis using Select
    by (cases p) (auto simp add: app_inv_def inst_inv_mount inst_inv_unmount)
next
  case (ClickCard i)
  assume "app_inv s"
  then show ?thesis using ClickCard by (simp add: app_inv_def)
next
  case ClickLoadedCard
  assume "app_inv s"
  then show ?thesis using ClickLoadedCard by (auto simp add: app_inv_def inst_inv_click)
next
  case (Settle k out)
  assume a: "app_inv s"
  show ?thesis
  proof (cases "k < length (fetchers s)")
    case True
    have "inst_inv (fetchData_settle out (fetchers s ! k))"
      using a True by (simp add: app_inv_def inst_inv_settle)
    then show ?thesis using a True Settle
      by (auto simp add: app_inv_def dest!: set_update_subset_insert [THEN subsetD])
  next
    case False
    then show ?thesis using a Settle by simp
  qed
qed

lemma app_inv_run: "app_inv s \<Longrightarrow> app_inv (run es s)"
  by (induction es arbitrary: s) (simp_all add: app_inv_step)

lemma home_inv_init: "home_inv App_init"
  by (simp add: home_inv_def App_init_def)

lemma home_inv_step: "home_inv s \<Longrightarrow> home_inv (step e s)"
proof (cases e)
  case (Select p)
  assume "home_inv s"
  then show ?thesis using Select
    by (cases p) (auto simp add: home_inv_def unmount_def)
next
  case (ClickCard i)
  assume "home_inv s"
  then show ?thesis using ClickCard by (simp add: home_inv_def)
next
  case ClickLoadedCard
  assume "home_inv s"
  then show ?thesis using ClickLoadedCard by (auto simp add: home_inv_def mounted_click)
next
  case (Settle k out)
  assume a: "home_inv s"
  show ?thesis
  proof (cases "k < length (fetchers s)")
    case True
    then show ?thesis using a Settle
      by (auto simp add: home_inv_def mounted_settle dest!: set_update_subset_insert [THEN subsetD])
  next
    case False
    then show ?thesis using a Settle by simp
  qed
qed

lemma home_inv_run: "home_inv s \<Longrightarrow> home_inv (run es s)"
  by (induction es arbitrary: s) (simp_all add: home_inv_step)

subsection \<open>One instance along a run\<close>

lemma step_length_mono: "k < length (fetchers s) \<Longrightarrow> k < length (fetchers (step e s))"
proof (cases e)
  case (Select p)
  assume "k < length (fetchers s)"
  then show ?thesis using Select by (cases p) auto
qed auto

lemma step_nth_other:
  assumes "k < length (fetchers s)" and "\<forall>out. e \<noteq> Settle k out"
  shows "fetchers (step e s) ! k = fetchers s ! k
       \<or> (e = Select Home \<and> fetchers (step e s) ! k = unmount (fetchers s ! k))
       \<or> fetchers (step e s) ! k = click_loaded_card (fetchers s ! k)"
proof (cases e)
  case (Select p)
  then show ?thesis using assms(1)
    by (cases p) (simp_all add: nth_append)
next
  case (ClickCard i)
  then show ?thesis by simp
next
  case ClickLoadedCard
  then show ?thesis using assms(1) by simp
next
  case (Settle j out)
  then have "j \<noteq> k" using assms(2) by simp
  then show ?thesis using Settle by simp
qed

lemma settled_step:
  assumes "k < length (fetchers s)" and "\<not> inflight (fetchers s ! k)"
  shows "\<not> inflight (fetchers (step e s) ! k)
       \<and> fetchState (fetchers (step e s) ! k) = fetchState (fetchers s ! k)"
proof (cases "\<exists>out. e = Settle k out")
  case True
  then obtain out where e: "e = Settle k out" by blast
  have "fetchers (step e s) ! k = fetchers s ! k"
    unfolding e using assms by (simp add: settle_idle)
  then show ?thesis using assms(2) by simp
next
  case False
  then have "\<forall>out. e \<noteq> Settle k out" by simp
  from step_nth_other [OF assms(1) this] show ?thesis
    using assms(2) by (auto simp add: unmount_simps click_loaded_card_simps)
qed

lemma pending_step_other:
  assumes "k < length (fetchers s)" and "inflight (fetchers s ! k)" and "loading (fetchers s ! k)"
    and "mounted (fetchers s ! k)" and "\<forall>out. e \<noteq> Settle k out" and "e \<noteq> Select Home"
  shows "inflight (fetchers (step e s) ! k) \<and> loading (fetchers (step e s) ! k)
       \<and> mounted (fetchers (step e s) ! k)"
  using step_nth_other [OF assms(1) assms(5)] assms(2,3,4,6)
  by (auto simp add: click_loaded_card_simps mounted_click)

lemma pending_step_settle:
  assumes "k < length (fetchers s)" and "inflight (fetchers s ! k)" and "mounted (fetchers s ! k)"
  shows "\<not> inflight (fetchers (step (Settle k out) s) ! k)
       \<and> fetchState (fetchers (step (Settle k out) s) ! k) \<noteq> Loading"
  using assms
  by (cases "fetchData_try out")
    (auto simp add: fetchData_settle_def fetchData_resume_def dispatch_def fetchState_def
      split: option.splits)

lemma history_Cons: "history k (e # es) s = fetchState (fetchers s ! k) # history k es (step e s)"
  by (simp add: history_def)

lemma history_settled:
  "k < length (fetchers s) \<Longrightarrow> \<not> inflight (fetchers s ! k) \<Longrightarrow>
     history k es s = replicate (Suc (length es)) (fetchState (fetchers s ! k))"
proof (induction es arbitrary: s)
  case Nil
  then show ?case by (simp add: history_def)
next
  case (Cons e es)
  have "k < length (fetchers (step e s))"
    using Cons.prems(1) by (rule step_length_mono)
  moreover have "\<not> inflight (fetchers (step e s) ! k)
       \<and> fetchState (fetchers (step e s) ! k) = fetchState (fetchers s ! k)"
    using Cons.prems by (rule settled_step)
  ultimately have "history k es (step e s) = replicate (Suc (length es)) (fetchState (fetchers s ! k))"
    using Cons.IH [of "step e s"] by simp
  then show ?case by (simp add: history_Cons)
qed

lemma history_pending:
  "k < length (fetchers s) \<Longrightarrow> inflight (fetchers s ! k) \<Longrightarrow> loading (fetchers s ! k) \<Longrightarrow>
     mounted (fetchers s ! k) \<Longrightarrow> Select Home \<notin> set es \<Longrightarrow>
     \<exists>n t. history k es s = replicate (Suc n) Loading @ replicate (length es - n) t
       \<and> n \<le> length es \<and> t \<noteq> Loading
       \<and> (n < length es \<longleftrightarrow> (\<exists>out. Settle k out \<in> set es))"
proof (induction es arbitrary: s)
  case Nil
  have "history k [] s = replicate (Suc 0) Loading @ replicate (length ([]::event list) - 0) (Loaded None)"
    using Nil.prems by (simp add: history_def fetchState_def)
  then show ?case by fastforce
next
  case (Cons e es)
  have now: "fetchState (fetchers s ! k) = Loading"
    using Cons.prems(3) by (simp add: fetchState_def)
  have len: "k < length (fetchers (step e s))"
    using Cons.prems(1) by (rule step_length_mono)
  have nh: "e \<noteq> Select Home" "Select Home \<notin> set es"
    using Cons.prems(5) by auto
  show ?case
  proof (cases "\<exists>out. e = Settle k out")
    case True
    then obtain out where e: "e = Settle k out" by blast
    have st: "\<not> inflight (fetchers (step e s) ! k) \<and> fetchState (fetchers (step e s) ! k) \<noteq> Loading"
      unfolding e using Cons.prems(1,2,4) by (rule pending_step_settle)
    have "history k es (step e s) = replicate (Suc (length es)) (fetchState (fetchers (step e s) ! k))"
      using len st by (simp add: history_settled)
    then have "history k (e # es) s
        = replicate (Suc 0) Loading @ replicate (length (e # es) - 0) (fetchState (fetchers (step e s) ! k))"
      using now by (simp add: history_Cons)
    moreover have "\<exists>out. Settle k out \<in> set (e # es)" using e by auto
    ultimately show ?thesis using st
      by (intro exI [of _ 0] exI [of _ "fetchState (fetchers (step e s) ! k)"]) simp
  next
    case False
    then have ne: "\<forall>out. e \<noteq> Settle k out" by simp
    have "inflight (fetchers (step e s) ! k) \<and> loading (fetchers (step e s) ! k)
        \<and> mounted (fetchers (step e s) ! k)"
      using Cons.prems(1,2,3,4) ne nh(1) by (rule pending_step_other)
    then obtain n t where ih:
      "history k es (step e s) = replicate (Suc n) Loading @ replicate (length es - n) t"
      "n \<le> length es" "t \<noteq> Loading" "n < length es \<longleftrightarrow> (\<exists>out. Settle k out \<in> set es)"
      using Cons.IH [of "step e s"] len nh(2) by blast
    have "history k (e # es) s = replicate (Suc (Suc n)) Loading @ replicate (length (e # es) - Suc n) t"
      using now ih(1) by (simp add: history_Cons)
    moreover have "Suc n < length (e # es) \<longleftrightarrow> (\<exists>out. Settle k out \<in> set (e # es))"
      using ih(4) ne by auto
    ultimately show ?thesis using ih(2,3)
      by (intro exI [of _ "Suc n"] exI [of _ t]) simp
  qed
qed

lemma changes_replicate: "changes (replicate n x) = 0"
proof (induction n)
  case 0
  then show ?case by simp
next
  case (Suc n)
  then show ?case by (cases n) simp_all
qed

lemma changes_two_runs:
  "x \<noteq> t \<Longrightarrow> changes (replicate (Suc n) x @ replicate m t) = (if m = 0 then 0 else 1)"
proof (induction n)
  case 0
  then show ?case
    using changes_replicate [of m t] by (cases m) simp_all
next
  case (Suc n)
  then show ?case by simp
qed

subsection \<open>The counters of the home cards along a run\<close>

lemma handleCardClick_le: "c \<le> MAX_EXACT \<Longrightarrow> handleCardClick c = min (c + 1) MAX_EXACT"
  by (simp add: handleCardClick_def number_add1_def)

lemma step_cards_length:
  "\<forall>p. e \<noteq> Select p \<Longrightarrow> length (cards (step e s)) = length (cards s)"
  by (cases e) simp_all

lemma step_cards_nth:
  "\<forall>p. e \<noteq> Select p \<Longrightarrow> i < length (cards s) \<Longrightarrow>
     cards (step e s) ! i = (if e = ClickCard i then handleCardClick (cards s ! i) else cards s ! i)"
  by (cases e) (auto simp add: nth_list_update)

lemma run_cards:
  "\<forall>p. Select p \<notin> set es \<Longrightarrow> i < length (cards s) \<Longrightarrow> cards s ! i \<le> MAX_EXACT \<Longrightarrow>
     length (cards (run es s)) = length (cards s)
     \<and> cards (run es s) ! i = min (cards s ! i + count_list es (ClickCard i)) MAX_EXACT"
proof (induction es arbitrary: s)
  case Nil
  then show ?case by simp
next
  case (Cons e es)
  have ns: "\<forall>p. e \<noteq> Select p" using Cons.prems(1) by auto
  have len: "length (cards (step e s)) = length (cards s)"
    using ns by (rule step_cards_length)
  have nth: "cards (step e s) ! i = (if e = ClickCard i then handleCardClick (cards s ! i) else cards s ! i)"
    using ns Cons.prems(2) by (rule step_cards_nth)
  have le: "cards (step e s) ! i \<le> MAX_EXACT"
    using nth Cons.prems(3) by (simp add: handleCardClick_le)
  have ih: "length (cards (run es (step e s))) = length (cards (step e s))
     \<and> cards (run es (step e s)) ! i = min (cards (step e s) ! i + count_list es (ClickCard i)) MAX_EXACT"
    using Cons.IH [of "step e s"] Cons.prems(1,2) len le by simp
  show ?case
    using ih len nth Cons.prems(3) by (auto simp add: handleCardClick_le)
qed

subsection \<open>The counter of the card of the loaded view along a run\<close>

lemma loaded_step:
  assumes "\<forall>p. e \<noteq> Select p" and "k < length (fetchers s)"
    and "mounted (fetchers s ! k)" and "is_Loaded (fetchers s ! k)" and "\<not> inflight (fetchers s ! k)"
  shows "k < length (fetchers (step e s))
       \<and> mounted (fetchers (step e s) ! k) \<and> is_Loaded (fetchers (step e s) ! k)
       \<and> \<not> inflight (fetchers (step e s) ! k)
       \<and> data (fetchers (step e s) ! k) = data (fetchers s ! k)
       \<and> card_clicks (fetchers (step e s) ! k)
           = (if e = ClickLoadedCard then handleCardClick (card_clicks (fetchers s ! k))
              else card_clicks (fetchers s ! k))"
proof (cases e)
  case (Select p)
  then show ?thesis using assms(1) by simp
next
  case (ClickCard i)
  then show ?thesis using assms by simp
next
  case ClickLoadedCard
  then show ?thesis using assms by (simp add: click_loaded_card_def is_Loaded_def)
next
  case (Settle j out)
  then show ?thesis using assms
    by (cases "j = k") (simp_all add: fetchData_settle_def)
qed

lemma run_card_clicks:
  "\<forall>p. Select p \<notin> set es \<Longrightarrow> k < length (fetchers s) \<Longrightarrow> mounted (fetchers s ! k) \<Longrightarrow>
     is_Loaded (fetchers s ! k) \<Longrightarrow> \<not> inflight (fetchers s ! k) \<Longrightarrow>
     card_clicks (fetchers s ! k) \<le> MAX_EXACT \<Longrightarrow>
     is_Loaded (fetchers (run es s) ! k)
     \<and> data (fetchers (run es s) ! k) = data (fetchers s ! k)
     \<and> card_clicks (fetchers (run es s) ! k)
         = min (card_clicks (fetchers s ! k) + count_list es ClickLoadedCard) MAX_EXACT"
proof (induction es arbitrary: s)
  case Nil
  then show ?case by simp
next
  case (Cons e es)
  have ns: "\<forall>p. e \<noteq> Select p" using Cons.prems(1) by auto
  note st = loaded_step [OF ns Cons.prems(2,3,4,5)]
  have le: "card_clicks (fetchers (step e s) ! k) \<le> MAX_EXACT"
    using st Cons.prems(6) by (simp add: handleCardClick_le)
  have ih: "is_Loaded (fetchers (run es (step e s)) ! k)
     \<and> data (fetchers (run es (step e s)) ! k) = data (fetchers (step e s) ! k)
     \<and> card_clicks (fetchers (run es (step e s)) ! k)
         = min (card_clicks (fetchers (step e s) ! k) + count_list es ClickLoadedCard) MAX_EXACT"
    using Cons.IH [of "step e s"] Cons.prems(1) st le by simp
  show ?case
    using ih st Cons.prems(6) by (auto simp add: handleCardClick_le)
qed

lemma count_list_replicate_same: "count_list (replicate n x) x = n"
  by (induction n) simp_all

section \<open>Deactivation before the fetch resolves\<close>

text \<open>
  Claim C1. Let the data page be shown, with any instance \<open>k\<close> of the data fetcher, and
  let the home page be selected, which deactivates the view. Whatever happens afterwards
  (the request of the instance settling with any outcome, clicks, the data page being
  selected again), in every state that follows the data, loading and error of the
  instance are what they were at deactivation, and the instance stays unmounted. When
  its request settles after deactivation the result is dropped: nothing of it reaches the
  cells, and what the application renders is the same before and after. The source
  itself keeps no liveness flag; the setter calls are made and it is the setters that
  drop them.
\<close>

theorem late_result_discarded:
  assumes "currentPage s = Data" and "k < length (fetchers s)"
  shows "(\<forall>s' \<in> set (trail es (step (Select Home) s)).
            \<not> mounted (fetchers s' ! k)
            \<and> view_state (fetchers s' ! k) = view_state (fetchers s ! k))
       \<and> view_state (fetchers (step (Settle k out) (step (Select Home) s)) ! k)
           = view_state (fetchers s ! k)
       \<and> App_render (step (Settle k out) (step (Select Home) s))
           = App_render (step (Select Home) s)"
proof -
  let ?s = "step (Select Home) s"
  have k: "k < length (fetchers ?s)"
    using assms by simp
  have u: "\<not> mounted (fetchers ?s ! k)"
    using assms by (simp add: unmount_def)
  have v: "view_state (fetchers ?s ! k) = view_state (fetchers s ! k)"
    using assms by (simp add: unmount_def view_state_def)
  have "\<forall>s' \<in> set (trail es ?s).
      \<not> mounted (fetchers s' ! k) \<and> view_state (fetchers s' ! k) = view_state (fetchers s ! k)"
    using unmounted_trail [OF k u, of es] v by simp
  moreover have "view_state (fetchers (step (Settle k out) ?s) ! k) = view_state (fetchers s ! k)"
    using unmounted_step [OF k u, of "Settle k out"] v by simp
  moreover have "App_render (step (Settle k out) ?s) = App_render ?s"
    using k u by (rule render_late_settle)
  ultimately show ?thesis by blast
qed

text \<open>
  Claim C1, witness: the data page is selected from the initial state, so that instance 0
  is mounted with its request in flight; then the home page is selected, the request
  settles with status 200 and a post, and the data page is selected again. Instance 0
  still has no data, is still loading and has no error.
\<close>

theorem late_result_discarded_witness:
  "currentPage (step (Select Data) App_init) = Data
   \<and> inflight (fetchers (step (Select Data) App_init) ! 0)
   \<and> view_state (fetchers (run [Select Data, Select Home,
        Settle 0 (Response 200 (Json (Some \<lparr>post_id = 1, title = ''T'', body = ''B''\<rparr>))),
        Select Data] App_init) ! 0) = (None, True, None)
   \<and> App_render (run [Select Data, Select Home,
        Settle 0 (Response 200 (Json (Some \<lparr>post_id = 1, title = ''T'', body = ''B''\<rparr>)))] App_init)
       = App_render (run [Select Data, Select Home] App_init)"
  using late_result_discarded [of "step (Select Data) App_init" 0
      "[Settle 0 (Response 200 (Json (Some \<lparr>post_id = 1, title = ''T'', body = ''B''\<rparr>))), Select Data]"
      "Response 200 (Json (Some \<lparr>post_id = 1, title = ''T'', body = ''B''\<rparr>))"]
  by (simp add: App_init_def mount_simps view_state_def)

section \<open>Transitions of one activation\<close>

text \<open>
  Claim C2, as the code has it. Take a state showing the home page, select the data page
  (which mounts instance number \<open>length (fetchers s)\<close>) and let any events follow that do
  not select the home page, so that the instance stays mounted. The view states the
  instance passes through are then a run of \<open>Loading\<close> followed by a run of one and the
  same state \<open>t\<close> that is not \<open>Loading\<close>, hence \<open>Failed\<close> or \<open>Loaded\<close>; the second run
  is not empty exactly when the request of this instance settles among the events. So
  the state changes once if the request settles during the activation and not at all
  otherwise, and it never returns to \<open>Loading\<close>.
\<close>

theorem activation_transitions:
  assumes "currentPage s = Home" and "Select Home \<notin> set es"
  shows "(\<exists>n t. history (length (fetchers s)) es (step (Select Data) s)
             = replicate (Suc n) Loading @ replicate (length es - n) t
           \<and> n \<le> length es \<and> t \<noteq> Loading
           \<and> (n < length es \<longleftrightarrow> (\<exists>out. Settle (length (fetchers s)) out \<in> set es)))
       \<and> changes (history (length (fetchers s)) es (step (Select Data) s))
           = (if \<exists>out. Settle (length (fetchers s)) out \<in> set es then 1 else 0)"
proof -
  let ?k = "length (fetchers s)"
  let ?s = "step (Select Data) s"
  have f: "fetchers ?s = fetchers s @ [mount]"
    using assms(1) by simp
  have "?k < length (fetchers ?s)" "inflight (fetchers ?s ! ?k)" "loading (fetchers ?s ! ?k)"
    "mounted (fetchers ?s ! ?k)"
    unfolding f by (simp_all add: mount_simps)
  then obtain n t where h:
    "history ?k es ?s = replicate (Suc n) Loading @ replicate (length es - n) t"
    "n \<le> length es" "t \<noteq> Loading" "n < length es \<longleftrightarrow> (\<exists>out. Settle ?k out \<in> set es)"
    using history_pending [of ?k ?s es] assms(2) by blast
  have "changes (history ?k es ?s) = (if length es - n = 0 then 0 else 1)"
    unfolding h(1) using h(3) by (intro changes_two_runs) simp
  then have "changes (history ?k es ?s) = (if \<exists>out. Settle ?k out \<in> set es then 1 else 0)"
    using h(2,4) by auto
  then show ?thesis using h by blast
qed

text \<open>
  Claim C2, witness: from the initial state the data page is selected; then the data
  button is clicked again, the request settles with status 404, a click on the card of
  the loaded view finds no card, and a second answer for the same request is ignored.
  The view state changes once.
\<close>

theorem activation_transitions_witness:
  "currentPage App_init = Home
   \<and> Select Home \<notin> set [Select Data, Settle 0 (Response 404 (Json None)), ClickLoadedCard,
        Settle 0 (Response 200 (Json None))]
   \<and> changes (history 0 [Select Data, Settle 0 (Response 404 (Json None)), ClickLoadedCard,
        Settle 0 (Response 200 (Json None))] (step (Select Data) App_init)) = 1"
  using activation_transitions [of App_init "[Select Data, Settle 0 (Response 404 (Json None)),
       ClickLoadedCard, Settle 0 (Response 200 (Json None))]"]
  by (auto simp add: App_init_def)

text \<open>
  Claim C2, as stated, fails: an activation that ends before its request has settled (the
  data page is selected, then the home page) makes no transition at all, where the claim
  has exactly one for every activation.
\<close>

theorem activation_cut_short:
  "changes (history 0 [Select Home] (step (Select Data) App_init)) = 0
   \<and> mounted (fetchers (run [Select Data, Select Home] App_init) ! 0) = False"
  by (simp add: history_def App_init_def fetchState_def mount_simps unmount_def)

section \<open>One variant at a time\<close>

text \<open>
  Claim C3. In every state the application can reach, every instance of the data fetcher
  satisfies exactly one of the three conditions \<open>is_Loading\<close>, \<open>is_Failed\<close>, \<open>is_Loaded\<close>;
  it never holds an error and data together, and while it is loading it holds neither.
  States are taken between the turns of the event loop: the setter calls of one
  continuation take effect together.
\<close>

theorem fetchState_exclusive:
  "\<forall>f \<in> set (fetchers (run es App_init)).
     ((is_Loading f \<and> \<not> is_Failed f \<and> \<not> is_Loaded f)
        \<or> (\<not> is_Loading f \<and> is_Failed f \<and> \<not> is_Loaded f)
        \<or> (\<not> is_Loading f \<and> \<not> is_Failed f \<and> is_Loaded f))
     \<and> \<not> (error f \<noteq> None \<and> data f \<noteq> None)
     \<and> \<not> (loading f \<and> (error f \<noteq> None \<or> data f \<noteq> None))"
proof
  fix f
  assume "f \<in> set (fetchers (run es App_init))"
  then have "inst_inv f"
    using app_inv_run [OF app_inv_init, of es] by (simp add: app_inv_def)
  then show "((is_Loading f \<and> \<not> is_Failed f \<and> \<not> is_Loaded f)
        \<or> (\<not> is_Loading f \<and> is_Failed f \<and> \<not> is_Loaded f)
        \<or> (\<not> is_Loading f \<and> \<not> is_Failed f \<and> is_Loaded f))
     \<and> \<not> (error f \<noteq> None \<and> data f \<noteq> None)
     \<and> \<not> (loading f \<and> (error f \<noteq> None \<or> data f \<noteq> None))"
    by (auto simp add: inst_inv_def is_Loading_def is_Failed_def is_Loaded_def)
qed

text \<open>
  Claim C3, witness: after the data page is selected and the request has settled with
  status 404 there is one instance, and it is failed, not loading and not loaded.
\<close>

theorem fetchState_exclusive_witness:
  "fetchers (run [Select Data, Settle 0 (Response 404 (Json None))] App_init)
     = [fetchData_settle (Response 404 (Json None)) mount]
   \<and> is_Failed (fetchData_settle (Response 404 (Json None)) mount)
   \<and> \<not> is_Loading (fetchData_settle (Response 404 (Json None)) mount)
   \<and> \<not> is_Loaded (fetchData_settle (Response 404 (Json None)) mount)
   \<and> data (fetchData_settle (Response 404 (Json None)) mount) = None"
  using fetchState_exclusive [of "[Select Data, Settle 0 (Response 404 (Json None))]"]
  by (simp add: App_init_def fetchData_settle_def dispatch_def fetchData_resume_def fetchData_try_def
      response_ok_def mount_simps is_Failed_def is_Loading_def is_Loaded_def)

section \<open>Failures\<close>

text \<open>
  Claim C4. When the response has a status outside 200 to 299, whatever its body, the
  freshly mounted instance becomes failed with the message \<^verbatim>\<open>HTTP error! status: \<close>
  followed by the status in decimal, and the component renders the error block whose
  last line is \<^verbatim>\<open>Error message: \<close> followed by that message.
\<close>

theorem http_error_failed:
  assumes "\<not> response_ok status"
  shows "fetchState (fetchData_settle (Response status b) mount)
           = Failed (Error (''HTTP error! status: '' @ decimal status))
       \<and> is_Failed (fetchData_settle (Response status b) mount)
       \<and> DataFetcherComponent (fetchData_settle (Response status b) mount)
           = ErrorView ''Error!'' ''Could not fetch data. Please try again later.''
               (''Error message: HTTP error! status: '' @ decimal status)"
  using assms
  by (simp add: fetchData_settle_def dispatch_def fetchData_resume_def fetchData_try_def mount_simps
      fetchState_def is_Failed_def DataFetcherComponent_def)

text \<open>
  Claim C4, witness: status 404 is not ok, and the line displayed reads
  \<^verbatim>\<open>Error message: HTTP error! status: 404\<close>.
\<close>

theorem http_error_failed_witness:
  "\<not> response_ok 404
   \<and> is_Failed (fetchData_settle (Response 404 (Json None)) mount)
   \<and> DataFetcherComponent (fetchData_settle (Response 404 (Json None)) mount)
       = ErrorView ''Error!'' ''Could not fetch data. Please try again later.''
           ''Error message: HTTP error! status: 404''"
  using http_error_failed [of 404 "Json None"]
  by (simp add: response_ok_def decimal.simps)

text \<open>
  Claim C5. When the body of the response is not JSON, so that \<^verbatim>\<open>response.json()\<close>
  rejects with an error \<open>e\<close>, the freshly mounted instance becomes failed, with \<open>e\<close> if
  the status is ok and with the HTTP error otherwise; it is no longer loading and it is
  not loaded.
\<close>

theorem malformed_failed:
  "is_Failed (fetchData_settle (Response status (Malformed e)) mount)
   \<and> fetchState (fetchData_settle (Response status (Malformed e)) mount)
       = Failed (if response_ok status then e else Error (''HTTP error! status: '' @ decimal status))
   \<and> \<not> loading (fetchData_settle (Response status (Malformed e)) mount)
   \<and> \<not> is_Loaded (fetchData_settle (Response status (Malformed e)) mount)"
  by (simp add: fetchData_settle_def dispatch_def fetchData_resume_def fetchData_try_def mount_simps
      fetchState_def is_Failed_def is_Loaded_def)

section \<open>The loaded view\<close>

text \<open>
  Claim C6. When the response is ok and its body parses to a post whose title and body
  are not empty, the instance is loaded with that post and the component renders a card
  whose heading is the title and whose paragraph is the body.
\<close>

theorem loaded_renders_post:
  assumes "response_ok status" and "title p \<noteq> []" and "body p \<noteq> []"
  shows "fetchState (fetchData_settle (Response status (Json (Some p))) mount) = Loaded (Some p)
       \<and> DataFetcherComponent (fetchData_settle (Response status (Json (Some p))) mount)
           = CardView
               \<lparr> card_class =
                   ''\<newline>        bg-white p-6 rounded-xl shadow-lg\<newline>        transform transition-transform duration-200 hover:scale-105\<newline>        cursor-pointer\<newline>        max-w-xl mx-auto\<newline>      '',
                 card_heading = title p,
                 card_paragraph = body p,
                 card_counter = ''Clicked: 0 times'' \<rparr>"
  using assms
  by (simp add: fetchData_settle_def dispatch_def fetchData_resume_def fetchData_try_def mount_simps
      fetchState_def DataFetcherComponent_def CardComponent_def or_else_def decimal.simps)

text \<open>
  Claim C6, witness: status 200 with the body \<^verbatim>\<open>{id:1,title:"T",body:"B"}\<close> renders the
  heading T and the paragraph B.
\<close>

theorem loaded_renders_post_witness:
  "response_ok 200
   \<and> DataFetcherComponent
       (fetchData_settle (Response 200 (Json (Some \<lparr>post_id = 1, title = ''T'', body = ''B''\<rparr>))) mount)
       = CardView
           \<lparr> card_class =
               ''\<newline>        bg-white p-6 rounded-xl shadow-lg\<newline>        transform transition-transform duration-200 hover:scale-105\<newline>        cursor-pointer\<newline>        max-w-xl mx-auto\<newline>      '',
             card_heading = ''T'',
             card_paragraph = ''B'',
             card_counter = ''Clicked: 0 times'' \<rparr>"
  using loaded_renders_post [of 200 "\<lparr>post_id = 1, title = ''T'', body = ''B''\<rparr>"]
  by (simp add: response_ok_def)

section \<open>Navigation\<close>

text \<open>
  Claim C7, as the code has it. In a state \<open>s\<close> that the application can reach, the
  selected page is one of the two. If it is the home page, selecting the data page
  removes the home cards and appends one freshly mounted instance, which is the only
  mounted one, is loading, and has made one request; the loading text is rendered. If it
  is the data page, selecting the data page again changes nothing at all, whereas
  selecting the home page and then the data page unmounts every instance and mounts a
  fresh one, which starts from loading.
\<close>

theorem navigation_cycle:
  assumes "s = run es App_init"
  shows "(currentPage s = Home \<or> currentPage s = Data)
     \<and> (currentPage s = Home \<longrightarrow>
          currentPage (step (Select Data) s) = Data
          \<and> cards (step (Select Data) s) = []
          \<and> fetchers (step (Select Data) s) = fetchers s @ [mount]
          \<and> filter mounted (fetchers (step (Select Data) s)) = [mount]
          \<and> fetchState mount = Loading \<and> inflight mount \<and> fetchCount mount = 1
          \<and> page_content (App_render (step (Select Data) s))
              = Some (DataPanel (LoadingView ''Loading...'')))
     \<and> (currentPage s = Data \<longrightarrow>
          step (Select Data) s = s
          \<and> fetchers (run [Select Home, Select Data] s) = map unmount (fetchers s) @ [mount]
          \<and> filter mounted (fetchers (run [Select Home, Select Data] s)) = [mount]
          \<and> page_content (App_render (run [Select Home, Select Data] s))
              = Some (DataPanel (LoadingView ''Loading...'')))"
proof (intro conjI impI)
  show "currentPage s = Home \<or> currentPage s = Data"
    by (cases "currentPage s") simp_all
next
  assume h: "currentPage s = Home"
  have "home_inv s"
    unfolding assms by (rule home_inv_run [OF home_inv_init])
  then have none: "filter mounted (fetchers s) = []"
    using h by (simp add: home_inv_def)
  show "currentPage (step (Select Data) s) = Data" using h by simp
  show "cards (step (Select Data) s) = []" using h by simp
  show "fetchers (step (Select Data) s) = fetchers s @ [mount]" using h by simp
  show "filter mounted (fetchers (step (Select Data) s)) = [mount]"
    using h none by (simp add: mount_simps)
  show "fetchState mount = Loading" by (simp add: fetchState_def mount_simps)
  show "inflight mount" by (simp add: mount_simps)
  show "fetchCount mount = 1" by (simp add: mount_simps)
  show "page_content (App_render (step (Select Data) s)) = Some (DataPanel (LoadingView ''Loading...''))"
    using h by (simp add: App_render_def render_mount)
next
  assume d: "currentPage s = Data"
  show "step (Select Data) s = s" using d by simp
  show "fetchers (run [Select Home, Select Data] s) = map unmount (fetchers s) @ [mount]"
    using d by simp
  show "filter mounted (fetchers (run [Select Home, Select Data] s)) = [mount]"
    using d by (simp add: filter_mounted_unmount mount_simps)
  show "page_content (App_render (run [Select Home, Select Data] s)) = Some (DataPanel (LoadingView ''Loading...''))"
    using d by (simp add: App_render_def render_mount)
qed

text \<open>
  Claim C7, witness: the initial state shows the home page, and selecting the data page
  there mounts one instance; the state after that request has settled shows the data
  page, selecting the data page again leaves it as it is, and going through the home page
  leaves exactly the fresh instance mounted.
\<close>

theorem navigation_cycle_witness:
  "currentPage App_init = Home
   \<and> fetchers (step (Select Data) App_init) = [mount]
   \<and> currentPage (run [Select Data, Settle 0 (Response 200 (Json None))] App_init) = Data
   \<and> step (Select Data) (run [Select Data, Settle 0 (Response 200 (Json None))] App_init)
       = run [Select Data, Settle 0 (Response 200 (Json None))] App_init
   \<and> filter mounted (fetchers (run [Select Home, Select Data]
        (run [Select Data, Settle 0 (Response 200 (Json None))] App_init))) = [mount]"
  using navigation_cycle [of App_init "[]"]
    navigation_cycle [of "run [Select Data, Settle 0 (Response 200 (Json None))] App_init"
      "[Select Data, Settle 0 (Response 200 (Json None))]"]
  by (simp add: App_init_def)

text \<open>
  Claim C7, as stated, fails: the data page is selected, the request settles with a post,
  and the data page is selected again. There is still one instance only, and it is
  loaded with the post: the cycle has not restarted from loading.
\<close>

theorem reselect_keeps_state:
  "length (fetchers (run [Select Data,
       Settle 0 (Response 200 (Json (Some \<lparr>post_id = 1, title = ''T'', body = ''B''\<rparr>))),
       Select Data] App_init)) = 1
   \<and> fetchState (fetchers (run [Select Data,
       Settle 0 (Response 200 (Json (Some \<lparr>post_id = 1, title = ''T'', body = ''B''\<rparr>))),
       Select Data] App_init) ! 0) = Loaded (Some \<lparr>post_id = 1, title = ''T'', body = ''B''\<rparr>)"
  by (simp add: App_init_def fetchData_settle_def dispatch_def fetchData_resume_def fetchData_try_def
      response_ok_def mount_simps fetchState_def)

section \<open>The click counter\<close>

text \<open>
  Claim C8, as the code has it. Let any events follow that select no page. A card of the
  home page whose count is 0 and that is clicked \<open>N\<close> times among these events, with any
  number of clicks on other cards in between, has the count \<open>N\<close> afterwards and displays
  it, provided \<open>N\<close> is at most \<open>2\<^sup>5\<^sup>3\<close>. The same holds for the card of a mounted, loaded
  data fetcher. A click on a home card changes the count of no other home card and no
  instance of the data fetcher, and a click on the card of the loaded view changes the
  count of no home card.
\<close>

theorem clicks_counted:
  assumes "\<forall>p. Select p \<notin> set es"
  shows "(i < length (cards s) \<and> cards s ! i = 0 \<and> count_list es (ClickCard i) \<le> MAX_EXACT \<longrightarrow>
            cards (run es s) ! i = count_list es (ClickCard i)
            \<and> card_counter (CardComponent props (cards (run es s) ! i))
                = ''Clicked: '' @ decimal (count_list es (ClickCard i)) @ '' time''
                    @ (if count_list es (ClickCard i) \<noteq> 1 then ''s'' else []))
       \<and> (k < length (fetchers s) \<and> mounted (fetchers s ! k) \<and> is_Loaded (fetchers s ! k)
            \<and> \<not> inflight (fetchers s ! k) \<and> card_clicks (fetchers s ! k) = 0
            \<and> count_list es ClickLoadedCard \<le> MAX_EXACT \<longrightarrow>
            card_clicks (fetchers (run es s) ! k) = count_list es ClickLoadedCard
            \<and> (\<exists>el. DataFetcherComponent (fetchers (run es s) ! k) = CardView el
                 \<and> card_counter el
                     = ''Clicked: '' @ decimal (count_list es ClickLoadedCard) @ '' time''
                         @ (if count_list es ClickLoadedCard \<noteq> 1 then ''s'' else [])))
       \<and> (\<forall>j. j \<noteq> i \<longrightarrow> cards (step (ClickCard i) s) ! j = cards s ! j)
       \<and> fetchers (step (ClickCard i) s) = fetchers s
       \<and> cards (step ClickLoadedCard s) = cards s"
proof (intro conjI impI)
  assume a: "i < length (cards s) \<and> cards s ! i = 0 \<and> count_list es (ClickCard i) \<le> MAX_EXACT"
  then have "cards s ! i \<le> MAX_EXACT" by simp
  from run_cards [OF assms _ this] a
  have c: "cards (run es s) ! i = count_list es (ClickCard i)" by simp
  show "cards (run es s) ! i = count_list es (ClickCard i)" by (rule c)
  show "card_counter (CardComponent props (cards (run es s) ! i))
      = ''Clicked: '' @ decimal (count_list es (ClickCard i)) @ '' time''
          @ (if count_list es (ClickCard i) \<noteq> 1 then ''s'' else [])"
    unfolding c by (simp add: CardComponent_def)
next
  assume a: "k < length (fetchers s) \<and> mounted (fetchers s ! k) \<and> is_Loaded (fetchers s ! k)
      \<and> \<not> inflight (fetchers s ! k) \<and> card_clicks (fetchers s ! k) = 0
      \<and> count_list es ClickLoadedCard \<le> MAX_EXACT"
  then have "card_clicks (fetchers s ! k) \<le> MAX_EXACT" by simp
  with run_card_clicks [OF assms, of k s] a
  have r: "is_Loaded (fetchers (run es s) ! k)"
    "card_clicks (fetchers (run es s) ! k) = count_list es ClickLoadedCard"
    by simp_all
  show "card_clicks (fetchers (run es s) ! k) = count_list es ClickLoadedCard" by (rule r(2))
  show "\<exists>el. DataFetcherComponent (fetchers (run es s) ! k) = CardView el
       \<and> card_counter el
           = ''Clicked: '' @ decimal (count_list es ClickLoadedCard) @ '' time''
               @ (if count_list es ClickLoadedCard \<noteq> 1 then ''s'' else [])"
    using r by (simp add: DataFetcherComponent_def is_Loaded_def CardComponent_def)
next
  show "\<forall>j. j \<noteq> i \<longrightarrow> cards (step (ClickCard i) s) ! j = cards s ! j" by simp
  show "fetchers (step (ClickCard i) s) = fetchers s" by simp
  show "cards (step ClickLoadedCard s) = cards s" by simp
qed

text \<open>
  Claim C8, witness: from the initial state, two clicks on the second card with a click
  on the first card in between leave the second card displaying 2, and a click on the
  second card leaves the count of the first card as it was; two clicks on the card of the
  loaded view leave its count at 2.
\<close>

theorem clicks_counted_witness:
  "cards (run [ClickCard 1, ClickCard 0, ClickCard 1] App_init) ! 1 = 2
   \<and> card_counter (CardComponent (home_cards ! 1)
        (cards (run [ClickCard 1, ClickCard 0, ClickCard 1] App_init) ! 1)) = ''Clicked: 2 times''
   \<and> cards (step (ClickCard 1) App_init) ! 0 = cards App_init ! 0
   \<and> card_clicks (fetchers (run [ClickLoadedCard, ClickLoadedCard]
        (run [Select Data, Settle 0 (Response 200 (Json None))] App_init)) ! 0) = 2"
  using clicks_counted [of "[ClickCard 1, ClickCard 0, ClickCard 1]" 1 App_init "home_cards ! 1" 0]
    clicks_counted [of "[ClickLoadedCard, ClickLoadedCard]" 0
      "run [Select Data, Settle 0 (Response 200 (Json None))] App_init" "home_cards ! 1" 0]
  by (simp add: App_init_def home_cards_def MAX_EXACT_def decimal.simps
      handleCardClick_def number_add1_def CardComponent_def
      fetchData_settle_def dispatch_def fetchData_resume_def fetchData_try_def response_ok_def
      mount_simps is_Loaded_def click_loaded_card_def)

text \<open>
  Claim C8, as stated for every natural number, fails: after \<open>2\<^sup>5\<^sup>3 + 1\<close> clicks on the
  first card its count is \<open>2\<^sup>5\<^sup>3\<close>.
\<close>

theorem clicks_saturate:
  "cards (run (replicate (2 ^ 53 + 1) (ClickCard 0)) App_init) ! 0 = 2 ^ 53"
proof -
  have "\<forall>p. Select p \<notin> set (replicate (2 ^ 53 + 1) (ClickCard 0))" by simp
  from run_cards [OF this, of 0 App_init]
  show ?thesis by (simp add: App_init_def home_cards_def MAX_EXACT_def count_list_replicate_same)
qed

section \<open>The button\<close>

text \<open>
  Claim C9. The variant ranges over the two values \<open>Primary\<close> and \<open>Secondary\<close>, and for
  every label, handler and disabled flag the button's class attribute is the base classes
  followed by the blue pair for \<open>Primary\<close> and by the gray pair for \<open>Secondary\<close>; the other
  props are passed on unchanged.
\<close>

theorem Button_variant_mapping:
  "(v = Primary \<or> v = Secondary)
   \<and> Button \<lparr> variant = Primary, label = l, onClick = h, disabled = d \<rparr>
       = \<lparr> button_className =
             ''px-4 py-2 rounded font-semibold text-white transition-colors duration-200 bg-blue-500 hover:bg-blue-600'',
           button_onClick = h, button_disabled = d, button_text = l \<rparr>
   \<and> Button \<lparr> variant = Secondary, label = l, onClick = h, disabled = d \<rparr>
       = \<lparr> button_className =
             ''px-4 py-2 rounded font-semibold text-white transition-colors duration-200 bg-gray-500 hover:bg-gray-600'',
           button_onClick = h, button_disabled = d, button_text = l \<rparr>"
  by (cases v) (simp_all add: Button_def baseClasses_def variantClasses_def)

section \<open>Fallback texts\<close>

text \<open>
  Claim C10. When the instance is loaded, the component renders a card. Its heading is
  \<^verbatim>\<open>No Title\<close> if the data is null or the title is the empty string, and the title
  otherwise; its paragraph is \<^verbatim>\<open>No content found.\<close> if the data is null or the body is
  the empty string, and the body otherwise.
\<close>

theorem loaded_fallbacks:
  assumes "is_Loaded f"
  shows "\<exists>el. DataFetcherComponent f = CardView el
       \<and> (data f = None \<or> (\<exists>p. data f = Some p \<and> title p = []) \<longrightarrow> card_heading el = ''No Title'')
       \<and> (data f = None \<or> (\<exists>p. data f = Some p \<and> body p = [])
            \<longrightarrow> card_paragraph el = ''No content found.'')
       \<and> (\<forall>p. data f = Some p \<and> title p \<noteq> [] \<longrightarrow> card_heading el = title p)
       \<and> (\<forall>p. data f = Some p \<and> body p \<noteq> [] \<longrightarrow> card_paragraph el = body p)"
  using assms
  by (auto simp add: is_Loaded_def DataFetcherComponent_def CardComponent_def or_else_def)

text \<open>
  Claim C10, witness: a post with an empty title and an empty body, and a null body, both
  render the two fallback texts.
\<close>

theorem loaded_fallbacks_witness:
  "is_Loaded (fetchData_settle (Response 200 (Json (Some \<lparr>post_id = 1, title = [], body = []\<rparr>))) mount)
   \<and> DataFetcherComponent
       (fetchData_settle (Response 200 (Json (Some \<lparr>post_id = 1, title = [], body = []\<rparr>))) mount)
       = CardView
           \<lparr> card_class =
               ''\<newline>        bg-white p-6 rounded-xl shadow-lg\<newline>        transform transition-transform duration-200 hover:scale-105\<newline>        cursor-pointer\<newline>        max-w-xl mx-auto\<newline>      '',
             card_heading = ''No Title'',
             card_paragraph = ''No content found.'',
             card_counter = ''Clicked: 0 times'' \<rparr>
   \<and> is_Loaded (fetchData_settle (Response 200 (Json None)) mount)
   \<and> DataFetcherComponent (fetchData_settle (Response 200 (Json None)) mount)
       = CardView
           \<lparr> card_class =
               ''\<newline>        bg-white p-6 rounded-xl shadow-lg\<newline>        transform transition-transform duration-200 hover:scale-105\<newline>        cursor-pointer\<newline>        max-w-xl mx-auto\<newline>      '',
             card_heading = ''No Title'',
             card_paragraph = ''No content found.'',
             card_counter = ''Clicked: 0 times'' \<rparr>"
  using loaded_fallbacks
      [of "fetchData_settle (Response 200 (Json (Some \<lparr>post_id = 1, title = [], body = []\<rparr>))) mount"]
    loaded_fallbacks [of "fetchData_settle (Response 200 (Json None)) mount"]
  by (simp add: fetchData_settle_def dispatch_def fetchData_resume_def fetchData_try_def response_ok_def
      mount_simps is_Loaded_def DataFetcherComponent_def CardComponent_def or_else_def
      decimal.simps)

end
